theory Spec2Isabelle
  imports Complex_Main
begin

section \<open>JavaScript values\<close>

text \<open>
  The helpers of the test harness pass around audit results, which are plain JavaScript
  values. An object is an association list of its own properties, in the order of
  insertion, read with \<open>map_of\<close>; an array is a list. A number is an IEEE 754 double:
  \<open>JNum x\<close> is the finite double of value \<open>x\<close>, beside \<open>NaN\<close> and the two infinities;
  the two zeros are one value, as they are for \<open>===\<close>. Two values are equal here when
  they have the same structure; the identity of object references is not modelled, and
  none of the modelled functions compares references.
\<close>

datatype jsval =
    JUndefined
  | JNull
  | JBool bool
  | JNum real
  | JNaN
  | JInfinity bool
  | JStr string
  | JArr "jsval list"
  | JObj "(string \<times> jsval) list"

datatype error =
    TypeError
  | EngineError string

text \<open>ToBoolean: what \<open>!v\<close>, \<open>v || w\<close> and \<open>v && w\<close> test.\<close>

fun truthy :: "jsval \<Rightarrow> bool" where
  "truthy JUndefined = False"
| "truthy JNull = False"
| "truthy (JBool b) = b"
| "truthy (JNum x) = (x \<noteq> 0)"
| "truthy JNaN = False"
| "truthy (JInfinity positive) = True"
| "truthy (JStr s) = (s \<noteq> [])"
| "truthy (JArr xs) = True"
| "truthy (JObj ps) = True"

definition js_or :: "jsval \<Rightarrow> jsval \<Rightarrow> jsval" where
  "js_or v w = (if truthy v then v else w)"

text \<open>\<open>typeof v === "number"\<close>.\<close>

fun is_number :: "jsval \<Rightarrow> bool" where
  "is_number (JNum x) = True"
| "is_number JNaN = True"
| "is_number (JInfinity positive) = True"
| "is_number v = False"

text \<open>
  \<open>v[name]\<close> for a value that is neither \<open>null\<close> nor \<open>undefined\<close>, and for the
  property names the helpers read (\<open>scores\<close>, \<open>axeResults\<close>, the metric names): an
  object yields its own property or \<open>undefined\<close>; a primitive or an array has no
  property of such a name.
\<close>

fun read_prop :: "jsval \<Rightarrow> string \<Rightarrow> jsval" where
  "read_prop (JObj ps) name = (case map_of ps name of None \<Rightarrow> JUndefined | Some v \<Rightarrow> v)"
| "read_prop v name = JUndefined"

text \<open>\<open>v.name\<close> in general: reading a property of \<open>null\<close> or \<open>undefined\<close> throws.\<close>

fun get_prop :: "jsval \<Rightarrow> string \<Rightarrow> error + jsval" where
  "get_prop JUndefined name = Inl TypeError"
| "get_prop JNull name = Inl TypeError"
| "get_prop v name = Inr (read_prop v name)"

section \<open>Arithmetic on doubles\<close>

text \<open>
  An operation on doubles yields the double nearest to the exact result, a tie going
  to the even significand, and an infinity when that double would be \<open>2^1024\<close> or more
  in magnitude. A double has 53 significant bits; below \<open>2^-1022\<close> the spacing of the
  doubles stays \<open>2^-1074\<close>.
\<close>

text \<open>The number of bits of a positive integer.\<close>

function bit_length :: "int \<Rightarrow> int" where
  "bit_length k = (if k \<le> 0 then 0 else 1 + bit_length (k div 2))"
  by pat_completeness auto
termination
  by (relation "measure nat") auto

declare bit_length.simps [simp del]

text \<open>The exponent \<open>e\<close> with \<open>2^e \<le> |x| < 2^(e+1)\<close>, for \<open>x\<close> other than 0.\<close>

definition binade :: "real \<Rightarrow> int" where
  "binade x =
     (if 1 \<le> \<bar>x\<bar> then bit_length \<lfloor>\<bar>x\<bar>\<rfloor> - 1
      else - bit_length (\<lceil>1 / \<bar>x\<bar>\<rceil> - 1))"

definition pow2 :: "int \<Rightarrow> real" where
  "pow2 e = (if 0 \<le> e then 2 ^ nat e else 1 / 2 ^ nat (- e))"

definition round_ties_even :: "real \<Rightarrow> int" where
  "round_ties_even r =
     (let f = \<lfloor>r\<rfloor>; d = r - of_int f
      in if d < 1 / 2 then f else if 1 / 2 < d then f + 1 else if even f then f else f + 1)"

definition to_double :: "real \<Rightarrow> jsval" where
  "to_double x =
     (if x = 0 then JNum 0
      else
        (let e = max (binade x) (- 1022);
             ulp = pow2 (e - 52);
             y = of_int (round_ties_even (x / ulp)) * ulp
         in if 2 ^ 1024 \<le> \<bar>y\<bar> then JInfinity (0 < x) else JNum y))"

text \<open>
  \<open>v + w\<close> for two numbers. The averager applies \<open>+\<close> to numbers only; on other
  operands JavaScript would concatenate or convert, which is not modelled.
\<close>

fun js_add :: "jsval \<Rightarrow> jsval \<Rightarrow> jsval" where
  "js_add (JNum x) (JNum y) = to_double (x + y)"
| "js_add (JNum x) (JInfinity positive) = JInfinity positive"
| "js_add (JInfinity positive) (JNum y) = JInfinity positive"
| "js_add (JInfinity positive) (JInfinity positive') =
     (if positive = positive' then JInfinity positive else JNaN)"
| "js_add v w = JNaN"

text \<open>
  \<open>v / d\<close> and \<open>v * c\<close> for a number \<open>v\<close> and a finite double \<open>d\<close> or \<open>c\<close>, which in
  the averager is the length of an array or the literal 100.
\<close>

fun js_div :: "jsval \<Rightarrow> real \<Rightarrow> jsval" where
  "js_div (JNum x) d =
     (if d = 0 then (if x = 0 then JNaN else JInfinity (0 < x)) else to_double (x / d))"
| "js_div (JInfinity positive) d = JInfinity (if d < 0 then \<not> positive else positive)"
| "js_div v d = JNaN"

fun js_mul :: "jsval \<Rightarrow> real \<Rightarrow> jsval" where
  "js_mul (JNum x) c = to_double (x * c)"
| "js_mul (JInfinity positive) c =
     (if c = 0 then JNaN else JInfinity (if c < 0 then \<not> positive else positive))"
| "js_mul v c = JNaN"

text \<open>
  \<open>Math.round\<close>: the integer nearest to the exact value of its argument, a tie going
  up; an infinity and \<open>NaN\<close> are returned as they are.
\<close>

fun math_round :: "jsval \<Rightarrow> jsval" where
  "math_round (JNum x) = JNum (of_int \<lfloor>x + 1 / 2\<rfloor>)"
| "math_round (JInfinity positive) = JInfinity positive"
| "math_round v = JNaN"

section \<open>The audit cache (class AuditCache, tests/helpers/audits/audit-cache.js)\<close>

text \<open>
  The class holds two \<open>Map\<close>s keyed by string. Every value of \<open>lighthouseRuns\<close> is an
  array, since \<open>addLighthouseRun\<close> is the only writer.
\<close>

record AuditCache =
  cache :: "string \<rightharpoonup> jsval"
  lighthouseRuns :: "string \<rightharpoonup> jsval list"

definition AuditCache_new :: AuditCache where
  "AuditCache_new = \<lparr> cache = Map.empty, lighthouseRuns = Map.empty \<rparr>"

definition getCacheKey :: "string \<Rightarrow> string \<Rightarrow> string" where
  "getCacheKey url state = url @ ''#'' @ state"

text \<open>\<open>this.cache.get(key) || null\<close>: \<open>Map.get\<close> yields \<open>undefined\<close> for a missing key.\<close>

definition get :: "AuditCache \<Rightarrow> string \<Rightarrow> string \<Rightarrow> jsval" where
  "get c url state =
     (let key = getCacheKey url state in
      js_or (case cache c key of None \<Rightarrow> JUndefined | Some v \<Rightarrow> v) JNull)"

text \<open>\<open>this.lighthouseRuns.get(key) || []\<close>; a stored array is always truthy.\<close>

definition getLighthouseRuns :: "AuditCache \<Rightarrow> string \<Rightarrow> string \<Rightarrow> jsval list" where
  "getLighthouseRuns c url state =
     (let key = getCacheKey url state in
      case lighthouseRuns c key of None \<Rightarrow> [] | Some runs \<Rightarrow> runs)"

definition addLighthouseRun :: "AuditCache \<Rightarrow> string \<Rightarrow> jsval \<Rightarrow> string \<Rightarrow> AuditCache" where
  "addLighthouseRun c url results state =
     (let key = getCacheKey url state;
          runs = getLighthouseRuns c url state
      in c\<lparr> lighthouseRuns := (lighthouseRuns c)(key \<mapsto> runs @ [results]) \<rparr>)"

definition set_cache :: "AuditCache \<Rightarrow> string \<Rightarrow> jsval \<Rightarrow> string \<Rightarrow> AuditCache" where
  "set_cache c url results state =
     (let key = getCacheKey url state in c\<lparr> cache := (cache c)(key \<mapsto> results) \<rparr>)"

definition has :: "AuditCache \<Rightarrow> string \<Rightarrow> string \<Rightarrow> bool" where
  "has c url state = (let key = getCacheKey url state in cache c key \<noteq> None)"

definition hasEnoughLighthouseRuns :: "AuditCache \<Rightarrow> string \<Rightarrow> string \<Rightarrow> nat \<Rightarrow> bool" where
  "hasEnoughLighthouseRuns c url state requiredRuns =
     (let runs = getLighthouseRuns c url state in length runs \<ge> requiredRuns)"

definition clear :: "AuditCache \<Rightarrow> AuditCache" where
  "clear c = c\<lparr> cache := Map.empty, lighthouseRuns := Map.empty \<rparr>"

section \<open>The run averager (calculateAverageLighthouseScores, tests/helpers/config/audit-config.js)\<close>

definition metrics :: "string list" where
  "metrics = [''performance'', ''accessibility'', ''bestPractices'', ''seo'', ''pwa'']"

text \<open>
  \<open>totals\<close> is an object with one numeric property for each metric; no other property
  of it is ever read.
\<close>

type_synonym totals = "string \<Rightarrow> jsval"

definition init_totals :: totals where
  "init_totals = fold (\<lambda>metric t. t(metric := JNum 0)) metrics (\<lambda>_. JNum 0)"

text \<open>The body of \<open>runs.forEach\<close>: one run added to the totals.\<close>

definition add_run_scores :: "jsval \<Rightarrow> totals \<Rightarrow> totals" where
  "add_run_scores run t0 =
     (if truthy run \<and> truthy (read_prop run ''scores'') then
        fold (\<lambda>metric t.
                if is_number (read_prop (read_prop run ''scores'') metric)
                then t(metric := js_add (t metric) (read_prop (read_prop run ''scores'') metric))
                else t)
             metrics t0
      else t0)"

text \<open>
  \<open>Math.round((totals[metric] / runs.length) * 100) / 100\<close>; the length of an array is
  below \<open>2^32\<close> and so a double.
\<close>

definition average_scores :: "totals \<Rightarrow> nat \<Rightarrow> jsval" where
  "average_scores t n =
     JObj (map (\<lambda>metric.
                  (metric, js_div (math_round (js_mul (js_div (t metric) (of_nat n)) 100)) 100))
               metrics)"

text \<open>The property name of an array index or string position: its decimal numeral.\<close>

definition digits :: string where
  "digits = ''0123456789''"

fun index_name :: "nat \<Rightarrow> string" where
  "index_name i =
     (if i < 10 then [digits ! i] else index_name (i div 10) @ [digits ! (i mod 10)])"

declare index_name.simps [simp del]

text \<open>
  \<open>{...v}\<close>: the own enumerable properties of \<open>v\<close>. An array or a string spreads into
  its indexed elements; \<open>null\<close>, \<open>undefined\<close>, a number and a boolean spread into nothing.
\<close>

fun spread :: "jsval \<Rightarrow> (string \<times> jsval) list" where
  "spread (JObj ps) = ps"
| "spread (JArr xs) = map (\<lambda>i. (index_name i, xs ! i)) [0..<length xs]"
| "spread (JStr s) = map (\<lambda>i. (index_name i, JStr [s ! i])) [0..<length s]"
| "spread v = []"

text \<open>
  A property written after a spread in an object literal: it replaces the value of a
  property of that name and is added at the end otherwise.
\<close>

fun put_prop :: "(string \<times> jsval) list \<Rightarrow> string \<Rightarrow> jsval \<Rightarrow> (string \<times> jsval) list" where
  "put_prop [] k v = [(k, v)]"
| "put_prop (p # ps) k v = (if fst p = k then (k, v) # ps else p # put_prop ps k v)"

text \<open>
  The argument is an array, or \<open>None\<close> for the \<open>null\<close> and \<open>undefined\<close> that the guard
  \<open>!runs\<close> catches.
\<close>

definition calculateAverageLighthouseScores :: "jsval list option \<Rightarrow> jsval" where
  "calculateAverageLighthouseScores runs =
     (case runs of
        None \<Rightarrow> JNull
      | Some rs \<Rightarrow>
          if length rs = 0 then JNull
          else
            (let t = fold add_run_scores rs init_totals;
                 averages = average_scores t (length rs)
             in JObj (put_prop (put_prop (spread (rs ! (length rs - 1))) ''scores'' averages)
                               ''runs'' (JNum (of_nat (length rs))))))"

section \<open>The page-state classifier (getPageState, tests/helpers/config/audit-config.js)\<close>

text \<open>
  The page under test: its URL and the \<open>li\<close> elements of the todo list, each with the
  flag of its \<open>completed\<close> class. The page is taken not to change during one
  classification, and the selector queries of a live page do not fail.
\<close>

record page =
  page_url :: string
  todo_list :: "bool list"

datatype selector = TodoItems | CompletedTodoItems

text \<open>\<open>page.$$(".todo-list li")\<close> and \<open>page.$$(".todo-list li.completed")\<close>.\<close>

fun query_all :: "page \<Rightarrow> selector \<Rightarrow> bool list" where
  "query_all pg TodoItems = todo_list pg"
| "query_all pg CompletedTodoItems = filter (\<lambda>completed. completed) (todo_list pg)"

definition states_empty :: "page \<Rightarrow> bool" where
  "states_empty pg = (let items = query_all pg TodoItems in length items = 0)"

definition states_completed :: "page \<Rightarrow> bool" where
  "states_completed pg =
     (let completedItems = query_all pg CompletedTodoItems;
          totalItems = query_all pg TodoItems
      in length completedItems > 0 \<and> length completedItems = length totalItems)"

definition states_mixed :: "page \<Rightarrow> bool" where
  "states_mixed pg =
     (let completedItems = query_all pg CompletedTodoItems;
          totalItems = query_all pg TodoItems
      in length completedItems > 0 \<and> length completedItems < length totalItems)"

definition getPageState :: "page \<Rightarrow> string" where
  "getPageState pg =
     (if states_empty pg then ''empty''
      else if states_completed pg then ''completed''
      else if states_mixed pg then ''mixed''
      else ''with-items'')"

section \<open>The audit orchestrator (runCombinedAudit, tests/helpers/config/audit-config.js)\<close>

text \<open>
  The two audit engines are external. The outcome of an invocation is a result or a
  thrown error, and may differ from one invocation to the next: the first argument of
  an engine is the number of invocations made before this one.
\<close>

record env =
  ENABLE_AXE :: "string option"
  ENABLE_LIGHTHOUSE :: "string option"
  runAccessibilityAudit :: "nat \<Rightarrow> page \<Rightarrow> jsval \<Rightarrow> error + jsval"
  runLighthouseAudit :: "nat \<Rightarrow> page \<Rightarrow> jsval \<Rightarrow> error + jsval"

record testInfo =
  info_file :: jsval
  info_title :: jsval
  info_project :: jsval

text \<open>
  The state of the process: the cache singleton, the result collection of
  \<open>testState\<close>, and the number of invocations of each engine so far.
\<close>

record harness =
  auditCache :: AuditCache
  testResults :: "jsval list"
  axeInvocations :: nat
  lighthouseInvocations :: nat

definition REQUIRED_LIGHTHOUSE_RUNS :: nat where
  "REQUIRED_LIGHTHOUSE_RUNS = 3"

definition addResult :: "harness \<Rightarrow> jsval \<Rightarrow> harness" where
  "addResult h result = h\<lparr> testResults := testResults h @ [result] \<rparr>"

text \<open>The Axe audit: reused from the cache, or run once and stored.\<close>

definition axe_audit :: "env \<Rightarrow> page \<Rightarrow> jsval \<Rightarrow> string \<Rightarrow> string \<Rightarrow> harness
    \<Rightarrow> (error + jsval) \<times> harness" where
  "axe_audit en pg config url state h =
     (if ENABLE_AXE en = Some ''true'' then
        if has (auditCache h) url state then
          (let cachedResults = get (auditCache h) url state
           in (get_prop cachedResults ''axeResults'', h))
        else
          (let h1 = h\<lparr> axeInvocations := axeInvocations h + 1 \<rparr> in
           case runAccessibilityAudit en (axeInvocations h) pg config of
             Inl e \<Rightarrow> (Inl e, h1)
           | Inr axeResults \<Rightarrow>
               (Inr axeResults,
                h1\<lparr> auditCache :=
                      set_cache (auditCache h1) url (JObj [(''axeResults'', axeResults)]) state \<rparr>))
      else (Inr JNull, h))"

text \<open>The loop \<open>for (let i = 0; i < remainingRuns; i++)\<close>, by the iterations left.\<close>

fun lighthouse_loop :: "env \<Rightarrow> page \<Rightarrow> jsval \<Rightarrow> string \<Rightarrow> string \<Rightarrow> nat \<Rightarrow> harness
    \<Rightarrow> (error + unit) \<times> harness" where
  "lighthouse_loop en pg config url state 0 h = (Inr (), h)"
| "lighthouse_loop en pg config url state (Suc n) h =
     (let h1 = h\<lparr> lighthouseInvocations := lighthouseInvocations h + 1 \<rparr> in
      case runLighthouseAudit en (lighthouseInvocations h) pg config of
        Inl e \<Rightarrow> (Inl e, h1)
      | Inr result \<Rightarrow>
          lighthouse_loop en pg config url state n
            (h1\<lparr> auditCache := addLighthouseRun (auditCache h1) url result state \<rparr>))"

text \<open>The Lighthouse audit: the runs still missing are made, then all runs are averaged.\<close>

definition lighthouse_audit :: "env \<Rightarrow> page \<Rightarrow> jsval \<Rightarrow> string \<Rightarrow> string \<Rightarrow> harness
    \<Rightarrow> (error + jsval) \<times> harness" where
  "lighthouse_audit en pg config url state h =
     (if ENABLE_LIGHTHOUSE en = Some ''true'' then
        (case
           (if \<not> hasEnoughLighthouseRuns (auditCache h) url state REQUIRED_LIGHTHOUSE_RUNS then
              (let remainingRuns =
                     REQUIRED_LIGHTHOUSE_RUNS - length (getLighthouseRuns (auditCache h) url state)
               in lighthouse_loop en pg config url state remainingRuns h)
            else (Inr (), h))
         of
           (Inl e, h1) \<Rightarrow> (Inl e, h1)
         | (Inr _, h1) \<Rightarrow>
             (let allRuns = getLighthouseRuns (auditCache h1) url state
              in (Inr (calculateAverageLighthouseScores (Some allRuns)), h1)))
      else (Inr JNull, h))"

text \<open>The default parameter \<open>config = {}\<close>: it replaces a missing argument.\<close>

definition default_config :: "jsval \<Rightarrow> jsval" where
  "default_config config = (if config = JUndefined then JObj [] else config)"

text \<open>
  A call returns its result or the error thrown, and the state of the process it
  leaves behind in either case.
\<close>

definition runCombinedAudit :: "env \<Rightarrow> page \<Rightarrow> testInfo \<Rightarrow> jsval \<Rightarrow> harness
    \<Rightarrow> (error + jsval) \<times> harness" where
  "runCombinedAudit en pg ti config0 h =
     (let config = default_config config0;
          url = page_url pg;
          state = getPageState pg
      in case axe_audit en pg config url state h of
           (Inl e, h1) \<Rightarrow> (Inl e, h1)
         | (Inr axeResults, h1) \<Rightarrow>
             (case lighthouse_audit en pg config url state h1 of
                (Inl e, h2) \<Rightarrow> (Inl e, h2)
              | (Inr lighthouseResults, h2) \<Rightarrow>
                  (let result = JObj
                         [(''testFile'', info_file ti),
                          (''testName'', js_or (info_title ti) (JStr (''Test for '' @ url))),
                          (''url'', JStr url),
                          (''lighthouseResults'', lighthouseResults),
                          (''axeResults'', axeResults),
                          (''testInfo'', JObj
                             [(''title'', js_or (info_title ti) (JStr (''Test for '' @ url))),
                              (''url'', JStr url),
                              (''project'', info_project ti)])]
                   in (Inr result, addResult h2 result))))"

section \<open>Notions of the specification\<close>

text \<open>\<open>Object.hasOwn(v, name)\<close> together with the value: the own property of an object.\<close>

definition own_property :: "jsval \<Rightarrow> string \<Rightarrow> jsval option" where
  "own_property v name = (case v of JObj ps \<Rightarrow> map_of ps name | _ \<Rightarrow> None)"

text \<open>
  The scores that the runs have for a metric, in the order of the runs: a run that has
  no number under the metric has no entry here, and so adds nothing to the sum.
\<close>

definition spec_scores :: "jsval list \<Rightarrow> string \<Rightarrow> jsval list" where
  "spec_scores runs metric =
     filter is_number (map (\<lambda>run. read_prop (read_prop run ''scores'') metric) runs)"

text \<open>
  The arithmetic mean in the words of the specification: the sum of the scores present,
  divided by the number of all runs, and rounded half up to two decimal places, each
  operation being one on doubles.
\<close>

definition spec_mean :: "jsval list \<Rightarrow> string \<Rightarrow> jsval" where
  "spec_mean runs metric =
     js_div (math_round
               (js_mul (js_div (foldl js_add (JNum 0) (spec_scores runs metric))
                               (of_nat (length runs)))
                       100))
            100"

section \<open>A scenario\<close>

text \<open>
  An empty todo page audited in a process that has just been reset, with engines that
  succeed and with a performance engine that fails.
\<close>

definition demo_page :: page where
  "demo_page = \<lparr> page_url = ''/todo'', todo_list = [] \<rparr>"

definition demo_info :: testInfo where
  "demo_info = \<lparr> info_file = JStr ''demo-todo-app.spec.js'', info_title = JStr ''empty list'',
                 info_project = JStr ''chromium'' \<rparr>"

definition steady_env :: env where
  "steady_env =
     \<lparr> ENABLE_AXE = Some ''true'', ENABLE_LIGHTHOUSE = Some ''true'',
       runAccessibilityAudit = (\<lambda>i pg config. Inr (JObj [(''violations'', JArr [])])),
       runLighthouseAudit = (\<lambda>i pg config.
          Inr (JObj [(''metrics'', JObj [(''performance'', JNum 100)]),
                     (''thresholdBreached'', JBool False)])) \<rparr>"

definition failing_env :: env where
  "failing_env =
     steady_env \<lparr> runLighthouseAudit :=
                    (\<lambda>i pg config. Inl (EngineError ''port 9222 is busy'')) \<rparr>"

definition fresh :: harness where
  "fresh = \<lparr> auditCache = AuditCache_new, testResults = [], axeInvocations = 0,
             lighthouseInvocations = 0 \<rparr>"

definition after_first_call :: harness where
  "after_first_call = snd (runCombinedAudit steady_env demo_page demo_info JUndefined fresh)"

definition after_second_call :: harness where
  "after_second_call =
     snd (runCombinedAudit steady_env demo_page demo_info JUndefined after_first_call)"

definition after_failed_call :: harness where
  "after_failed_call =
     snd (runCombinedAudit failing_env demo_page demo_info JUndefined fresh)"

section \<open>Properties of the arithmetic\<close>

text \<open>
  \<open>binade\<close> is the binary exponent, and an integer below \<open>2^53\<close> in magnitude is a
  double: rounding leaves it as it is.
\<close>

lemma bit_length_bounds:
  "0 < k \<Longrightarrow> 0 < bit_length k \<and> 2 ^ nat (bit_length k - 1) \<le> k \<and> k < 2 ^ nat (bit_length k)"
proof (induction k rule: bit_length.induct)
  case (1 k)
  show ?case
  proof (cases "k = 1")
    case True
    have "bit_length 1 = 1"
      by (simp add: bit_length.simps [of 1] bit_length.simps [of 0])
    with True show ?thesis by simp
  next
    case False
    with "1.prems" have half: "0 < k div 2" by simp
    from "1.prems" have unfold: "bit_length k = 1 + bit_length (k div 2)"
      by (simp add: bit_length.simps [of k])
    from "1.IH" "1.prems" half
    have pos: "0 < bit_length (k div 2)"
      and lo: "2 ^ nat (bit_length (k div 2) - 1) \<le> k div 2"
      and hi: "k div 2 < 2 ^ nat (bit_length (k div 2))"
      by simp_all
    define b where "b = nat (bit_length (k div 2) - 1)"
    from pos have b: "nat (bit_length (k div 2)) = Suc b" "nat (1 + bit_length (k div 2) - 1) = Suc b"
      "nat (1 + bit_length (k div 2)) = Suc (Suc b)"
      by (simp_all add: b_def)
    from lo hi have "2 * 2 ^ b \<le> k" "k < 2 * (2 * 2 ^ b)"
      unfolding b b_def [symmetric] by simp_all
    with pos show ?thesis
      unfolding unfold b by simp
  qed
qed

lemma round_ties_even_of_int: "round_ties_even (of_int j) = j"
  by (simp add: round_ties_even_def)

lemma to_double_of_int:
  assumes "\<bar>k\<bar> < 2 ^ 53"
  shows "to_double (of_int k) = JNum (of_int k)"
proof (cases "k = 0")
  case True
  then show ?thesis by (simp add: to_double_def)
next
  case False
  define b where "b = bit_length \<bar>k\<bar>"
  from False bit_length_bounds [of "\<bar>k\<bar>"]
  have pos: "0 < b" and lo: "2 ^ nat (b - 1) \<le> \<bar>k\<bar>"
    by (simp_all add: b_def)
  from lo assms have small: "(2::int) ^ nat (b - 1) < 2 ^ 53" by linarith
  have "nat (b - 1) < 53"
  proof (rule power_less_imp_less_exp)
    show "(1::int) < 2" by simp
    show "(2::int) ^ nat (b - 1) < 2 ^ 53" by (fact small)
  qed
  with pos have b53: "b \<le> 53" by linarith
  from False have "1 \<le> \<bar>k\<bar>" by linarith
  then have "real_of_int 1 \<le> real_of_int \<bar>k\<bar>"
    by (simp only: of_int_le_iff)
  then have abs1: "1 \<le> \<bar>real_of_int k\<bar>"
    by simp
  have e: "binade (of_int k) = b - 1"
    unfolding binade_def b_def using abs1
    by (simp only: if_True) (simp flip: of_int_abs)
  define s where "s = nat (53 - b)"
  have ulp: "pow2 (max (b - 1) (- 1022) - 52) = 1 / 2 ^ s"
  proof (cases "b = 53")
    case True
    then show ?thesis by (simp add: pow2_def s_def)
  next
    case False
    with b53 pos have "max (b - 1) (- 1022) - 52 < 0" "- (max (b - 1) (- 1022) - 52) = 53 - b"
      by simp_all
    then show ?thesis
      by (simp add: pow2_def s_def)
  qed
  have q: "real_of_int k / (1 / 2 ^ s) = of_int (k * 2 ^ s)"
    by simp
  have y: "of_int (round_ties_even (real_of_int k / (1 / 2 ^ s))) * (1 / 2 ^ s) = real_of_int k"
    unfolding q round_ties_even_of_int by simp
  have big: "\<not> (2::real) ^ 1024 \<le> \<bar>real_of_int k\<bar>"
  proof -
    from assms have "real_of_int \<bar>k\<bar> < 2 ^ 53"
      by (metis of_int_less_iff of_int_numeral of_int_power)
    moreover have "(2::real) ^ 53 < 2 ^ 1024" by simp
    ultimately show ?thesis by simp
  qed
  from False have nz: "real_of_int k \<noteq> 0" by simp
  show ?thesis
    unfolding to_double_def Let_def e ulp y by (simp only: nz big if_False)
qed

lemma to_double_zero [simp]: "to_double 0 = JNum 0"
  by (simp add: to_double_def)

lemma to_double_numeral [simp]:
  "numeral n < (2::int) ^ 53 \<Longrightarrow> to_double (numeral n) = JNum (numeral n)"
  using to_double_of_int [of "numeral n"] by simp


lemma binade_bounds:
  assumes "x \<noteq> 0"
  shows "pow2 (binade x) \<le> \<bar>x\<bar> \<and> \<bar>x\<bar> < pow2 (binade x + 1)"
proof (cases "1 \<le> \<bar>x\<bar>")
  case True
  define m where "m = \<lfloor>\<bar>x\<bar>\<rfloor>"
  define b where "b = bit_length m"
  from True have m: "0 < m" by (simp add: m_def)
  from bit_length_bounds [OF m] have pos: "0 < b"
    and lo: "2 ^ nat (b - 1) \<le> m" and hi: "m < 2 ^ nat b"
    by (simp_all add: b_def)
  have e: "binade x = b - 1"
    using True by (simp add: binade_def m_def b_def)
  from lo have "real_of_int (2 ^ nat (b - 1)) \<le> real_of_int m"
    by (simp only: of_int_le_iff)
  moreover have "real_of_int m \<le> \<bar>x\<bar>"
    by (simp add: m_def)
  ultimately have "real_of_int (2 ^ nat (b - 1)) \<le> \<bar>x\<bar>"
    by (rule order_trans)
  then have 1: "2 ^ nat (b - 1) \<le> \<bar>x\<bar>"
    by simp
  from hi have "m + 1 \<le> 2 ^ nat b" by simp
  then have "real_of_int (m + 1) \<le> real_of_int (2 ^ nat b)"
    by (simp only: of_int_le_iff)
  moreover have "\<bar>x\<bar> < real_of_int (m + 1)"
    unfolding m_def by linarith
  ultimately have "\<bar>x\<bar> < real_of_int (2 ^ nat b)"
    by (rule less_le_trans [rotated])
  then have 2: "\<bar>x\<bar> < 2 ^ nat b"
    by simp
  from pos 1 2 show ?thesis
    by (simp add: e pow2_def)
next
  case False
  define r where "r = 1 / \<bar>x\<bar>"
  define m where "m = \<lceil>r\<rceil> - 1"
  define b where "b = bit_length m"
  from assms False have x: "0 < \<bar>x\<bar>" "\<bar>x\<bar> < 1" by simp_all
  then have r1: "1 < r" by (simp add: r_def)
  then have m: "0 < m" unfolding m_def by linarith
  from bit_length_bounds [OF m] have pos: "0 < b"
    and lo: "2 ^ nat (b - 1) \<le> m" and hi: "m < 2 ^ nat b"
    by (simp_all add: b_def)
  have e: "binade x = - b"
    using False by (simp add: binade_def m_def b_def r_def)
  have mr: "real_of_int m < r" "r \<le> real_of_int (m + 1)"
    unfolding m_def by linarith+
  from lo have "real_of_int (2 ^ nat (b - 1)) \<le> real_of_int m"
    by (simp only: of_int_le_iff)
  from this mr(1) have "real_of_int (2 ^ nat (b - 1)) < r"
    by (rule le_less_trans)
  then have low: "2 ^ nat (b - 1) < r"
    by simp
  from hi have "m + 1 \<le> 2 ^ nat b" by simp
  then have "real_of_int (m + 1) \<le> real_of_int (2 ^ nat b)"
    by (simp only: of_int_le_iff)
  with mr(2) have "r \<le> real_of_int (2 ^ nat b)"
    by (rule order_trans)
  then have high: "r \<le> 2 ^ nat b"
    by simp
  from high x have 1: "1 / 2 ^ nat b \<le> \<bar>x\<bar>"
    by (simp add: r_def field_simps)
  from low x have 2: "\<bar>x\<bar> < 1 / 2 ^ nat (b - 1)"
    by (simp add: r_def field_simps)
  have p1: "pow2 (- b) = 1 / 2 ^ nat b"
    using pos by (simp add: pow2_def)
  have p2: "pow2 (- b + 1) = 1 / 2 ^ nat (b - 1)"
  proof (cases "b = 1")
    case True
    then show ?thesis by (simp add: pow2_def)
  next
    case False
    with pos have "- b + 1 < 0" "- (- b + 1) = b - 1" by simp_all
    then show ?thesis by (simp add: pow2_def)
  qed
  from 1 2 show ?thesis
    unfolding e p1 p2 by simp
qed

text \<open>Evaluation of a rounding at a given rational.\<close>

lemmas double_defs =
  to_double_def binade_def pow2_def round_ties_even_def Let_def bit_length.simps


section \<open>Properties of the cache\<close>

text \<open>
  The key is the URL, a \<open>#\<close> and the state. When neither state contains \<open>#\<close>, the
  state is what follows the last \<open>#\<close> of the key, so the key determines the pair.
\<close>

lemma getCacheKey_inj:
  assumes "CHR ''#'' \<notin> set s1" "CHR ''#'' \<notin> set s2"
    and "getCacheKey u1 s1 = getCacheKey u2 s2"
  shows "u1 = u2 \<and> s1 = s2"
  using assms
  by (auto simp: getCacheKey_def append_eq_append_conv2 Cons_eq_append_conv append_eq_Cons_conv)

lemma getCacheKey_neq:
  "CHR ''#'' \<notin> set s1 \<Longrightarrow> CHR ''#'' \<notin> set s2 \<Longrightarrow> (u1, s1) \<noteq> (u2, s2)
   \<Longrightarrow> getCacheKey u1 s1 \<noteq> getCacheKey u2 s2"
  using getCacheKey_inj by blast

text \<open>The labels of the classifier contain no \<open>#\<close>.\<close>

lemma getPageState_no_delimiter: "CHR ''#'' \<notin> set (getPageState pg)"
  by (simp add: getPageState_def)

text \<open>
  Claim C2, as stated: for every two pairs \<open>(url1, state1) \<noteq> (url2, state2)\<close> a value
  stored under one pair is never returned by \<open>get\<close>, \<open>getLighthouseRuns\<close> or \<open>has\<close>
  for the other pair. This fails: the pairs \<open>("/todo#a", "b")\<close> and \<open>("/todo", "a#b")\<close>
  differ and share the key \<open>/todo#a#b\<close>, so what is stored under the first is returned
  for the second.
\<close>

theorem cache_keys_collide:
  "(''/todo#a'', ''b'') \<noteq> (''/todo'', ''a#b'')
 \<and> \<not> has AuditCache_new ''/todo'' ''a#b''
 \<and> has (set_cache AuditCache_new ''/todo#a'' (JStr ''A'') ''b'') ''/todo'' ''a#b''
 \<and> get (set_cache AuditCache_new ''/todo#a'' (JStr ''A'') ''b'') ''/todo'' ''a#b'' = JStr ''A''
 \<and> getLighthouseRuns (addLighthouseRun AuditCache_new ''/todo#a'' (JStr ''A'') ''b'')
       ''/todo'' ''a#b'' = [JStr ''A'']"
  by (simp add: get_def has_def set_cache_def getLighthouseRuns_def addLighthouseRun_def
      AuditCache_new_def getCacheKey_def js_or_def)

text \<open>
  Claim C2, amended: for every two pairs \<open>(url1, state1) \<noteq> (url2, state2)\<close> whose
  states do not contain the delimiter \<open>#\<close>, storing a result or adding a run under the
  first pair changes nothing that \<open>get\<close>, \<open>has\<close> and \<open>getLighthouseRuns\<close> return for
  the second pair.
\<close>

theorem cache_key_isolation:
  assumes "CHR ''#'' \<notin> set state1" and "CHR ''#'' \<notin> set state2"
    and "(url1, state1) \<noteq> (url2, state2)"
  shows "get (set_cache c url1 v state1) url2 state2 = get c url2 state2
       \<and> has (set_cache c url1 v state1) url2 state2 = has c url2 state2
       \<and> getLighthouseRuns (set_cache c url1 v state1) url2 state2
           = getLighthouseRuns c url2 state2
       \<and> get (addLighthouseRun c url1 v state1) url2 state2 = get c url2 state2
       \<and> has (addLighthouseRun c url1 v state1) url2 state2 = has c url2 state2
       \<and> getLighthouseRuns (addLighthouseRun c url1 v state1) url2 state2
           = getLighthouseRuns c url2 state2"
  using getCacheKey_neq [OF assms]
  by (simp add: get_def has_def set_cache_def getLighthouseRuns_def addLighthouseRun_def)

theorem cache_key_isolation_witness:
  "CHR ''#'' \<notin> set ''empty'' \<and> CHR ''#'' \<notin> set ''mixed''
 \<and> (''/todo'', ''empty'') \<noteq> (''/todo'', ''mixed'')
 \<and> get (set_cache AuditCache_new ''/todo'' (JStr ''A'') ''empty'') ''/todo'' ''mixed'' = JNull
 \<and> \<not> has (set_cache AuditCache_new ''/todo'' (JStr ''A'') ''empty'') ''/todo'' ''mixed''
 \<and> getLighthouseRuns (addLighthouseRun AuditCache_new ''/todo'' (JStr ''A'') ''empty'')
       ''/todo'' ''mixed'' = []"
  using cache_key_isolation [of "''empty''" "''mixed''" "''/todo''" "''/todo''"
      AuditCache_new "JStr ''A''"]
  by (simp add: get_def has_def getLighthouseRuns_def AuditCache_new_def js_or_def)

text \<open>
  Claim C4: for every key and every pair of results A and B, \<open>set(key, A)\<close> then
  \<open>set(key, B)\<close> makes \<open>get(key)\<close> return B. A result is what \<open>set\<close> is documented
  to store, an object: every object and array is truthy, and \<open>null\<close> is covered too.
\<close>

theorem last_write_wins:
  "truthy b \<or> b = JNull \<Longrightarrow>
   get (set_cache (set_cache c url a state) url b state) url state = b"
  by (auto simp: get_def set_cache_def js_or_def)

theorem last_write_wins_witness:
  "(truthy (JObj [(''axeResults'', JStr ''B'')]) \<or> JObj [(''axeResults'', JStr ''B'')] = JNull)
 \<and> get (set_cache (set_cache AuditCache_new ''/todo'' (JObj [(''axeResults'', JStr ''A'')]) ''empty'')
                  ''/todo'' (JObj [(''axeResults'', JStr ''B'')]) ''empty'')
       ''/todo'' ''empty'' = JObj [(''axeResults'', JStr ''B'')]
 \<and> get (set_cache (set_cache AuditCache_new ''/todo'' (JObj []) ''empty'')
                  ''/todo'' (JObj []) ''empty'')
       ''/todo'' ''empty'' = JObj []"
  using last_write_wins [of "JObj [(''axeResults'', JStr ''B'')]" AuditCache_new "''/todo''"
      "JObj [(''axeResults'', JStr ''A'')]" "''empty''"]
    last_write_wins [of "JObj []" AuditCache_new "''/todo''" "JObj []" "''empty''"]
  by simp

text \<open>
  Claim C9: after \<open>set(key, value)\<close> with a falsy value, such as \<open>null\<close>, 0 or the
  empty string, \<open>has(key)\<close> returns true while \<open>get(key)\<close> returns \<open>null\<close>; so
  \<open>has(key)\<close> being true does not imply that \<open>get(key)\<close> is not \<open>null\<close>.
\<close>

theorem stored_falsy_reads_as_absent:
  "\<not> truthy v \<Longrightarrow>
   has (set_cache c url v state) url state \<and> get (set_cache c url v state) url state = JNull"
  by (simp add: has_def get_def set_cache_def js_or_def)

theorem stored_falsy_reads_as_absent_witness:
  "\<not> truthy JNull \<and> \<not> truthy (JNum 0) \<and> \<not> truthy (JStr [])
 \<and> has (set_cache AuditCache_new ''/todo'' JNull ''empty'') ''/todo'' ''empty''
 \<and> get (set_cache AuditCache_new ''/todo'' JNull ''empty'') ''/todo'' ''empty'' = JNull
 \<and> has (set_cache AuditCache_new ''/todo'' (JNum 0) ''empty'') ''/todo'' ''empty''
 \<and> get (set_cache AuditCache_new ''/todo'' (JNum 0) ''empty'') ''/todo'' ''empty'' = JNull
 \<and> has (set_cache AuditCache_new ''/todo'' (JStr []) ''empty'') ''/todo'' ''empty''
 \<and> get (set_cache AuditCache_new ''/todo'' (JStr []) ''empty'') ''/todo'' ''empty'' = JNull"
  using stored_falsy_reads_as_absent [of JNull AuditCache_new "''/todo''" "''empty''"]
    stored_falsy_reads_as_absent [of "JNum 0" AuditCache_new "''/todo''" "''empty''"]
    stored_falsy_reads_as_absent [of "JStr []" AuditCache_new "''/todo''" "''empty''"]
  by simp

section \<open>Properties of the run averager\<close>

lemma read_prop_falsy: "\<not> truthy v \<Longrightarrow> read_prop v name = JUndefined"
  by (cases v) simp_all

text \<open>The inner loop over the metrics adds to each total the number found under it.\<close>

lemma fold_metric_totals:
  "distinct ms \<Longrightarrow>
   fold (\<lambda>metric t. if is_number (read_prop sc metric)
                     then t(metric := js_add (t metric) (read_prop sc metric)) else t)
        ms t0 m
   = (if m \<in> set ms \<and> is_number (read_prop sc m) then js_add (t0 m) (read_prop sc m)
      else t0 m)"
  by (induction ms arbitrary: t0) auto

lemma distinct_metrics: "distinct metrics"
  by (simp add: metrics_def)

lemma add_run_scores_metric:
  assumes "m \<in> set metrics"
  shows "add_run_scores run t m =
         (if is_number (read_prop (read_prop run ''scores'') m)
          then js_add (t m) (read_prop (read_prop run ''scores'') m) else t m)"
proof (cases "truthy run \<and> truthy (read_prop run ''scores'')")
  case True
  then show ?thesis
    using assms by (simp add: add_run_scores_def fold_metric_totals distinct_metrics)
next
  case False
  then have "read_prop (read_prop run ''scores'') m = JUndefined"
    by (auto simp: read_prop_falsy)
  moreover from False have "add_run_scores run t = t"
    unfolding add_run_scores_def by (rule if_not_P)
  ultimately show ?thesis
    by simp
qed

lemma fold_add_run_scores:
  "m \<in> set metrics \<Longrightarrow>
   fold add_run_scores runs t m = foldl js_add (t m) (spec_scores runs m)"
  by (induction runs arbitrary: t) (simp_all add: add_run_scores_metric spec_scores_def)

lemma init_totals_zero: "init_totals m = JNum 0"
  by (simp add: init_totals_def metrics_def)

lemma totals_are_sums:
  "m \<in> set metrics \<Longrightarrow>
   fold add_run_scores runs init_totals m = foldl js_add (JNum 0) (spec_scores runs m)"
  by (simp add: fold_add_run_scores init_totals_zero)

lemma map_of_put_prop: "map_of (put_prop ps k v) = (map_of ps)(k \<mapsto> v)"
  by (induction ps) (auto simp: fun_eq_iff)

lemma map_of_tabulate:
  "map_of (map (\<lambda>k. (k, f k)) ks) k = (if k \<in> set ks then Some (f k) else None)"
  by (induction ks) auto

lemma average_scores_spec:
  "average_scores (fold add_run_scores runs init_totals) (length runs)
   = JObj (map (\<lambda>metric. (metric, spec_mean runs metric)) metrics)"
  by (simp add: average_scores_def spec_mean_def totals_are_sums)

lemma averager_object:
  "runs \<noteq> [] \<Longrightarrow>
   calculateAverageLighthouseScores (Some runs) =
     JObj (put_prop (put_prop (spread (last runs)) ''scores''
                       (JObj (map (\<lambda>metric. (metric, spec_mean runs metric)) metrics)))
                    ''runs'' (JNum (of_nat (length runs))))"
  by (simp add: calculateAverageLighthouseScores_def average_scores_spec last_conv_nth Let_def)

lemma averager_scores:
  "runs \<noteq> [] \<Longrightarrow>
   own_property (calculateAverageLighthouseScores (Some runs)) ''scores'' =
     Some (JObj (map (\<lambda>metric. (metric, spec_mean runs metric)) metrics))"
  by (simp add: averager_object own_property_def map_of_put_prop)

lemma is_number_to_double: "is_number (to_double x)"
  by (simp add: to_double_def Let_def)

lemma is_number_js_div: "is_number (js_div v d)"
  by (cases v) (simp_all add: is_number_to_double)

lemma is_number_spec_mean: "is_number (spec_mean runs metric)"
  by (simp add: spec_mean_def is_number_js_div)

text \<open>
  The averages follow the doubles. One run scoring 23 among 40 runs has the mean
  \<open>23 / 40\<close>, whose double lies below 0.575; a hundred times it is the double
  57.49999999999999, which \<open>Math.round\<close> takes to 57, and the score is the double
  nearest to 0.57, where exact arithmetic would give 0.58.
\<close>

lemma average_follows_doubles:
  "read_prop (read_prop (calculateAverageLighthouseScores
       (Some (JObj [(''scores'', JObj [(''performance'', JNum 23)])] # replicate 39 (JObj []))))
       ''scores'') ''performance''
   = JNum (5134103575202365 / 9007199254740992)
 \<and> to_double (57 / 100) = JNum (5134103575202365 / 9007199254740992)
 \<and> to_double (58 / 100) \<noteq> JNum (5134103575202365 / 9007199254740992)"
proof -
  have "js_div (JNum 23) 40 = JNum (2589569785738035 / 4503599627370496)"
    by (simp add: double_defs)
  moreover have "js_mul (JNum (2589569785738035 / 4503599627370496)) 100
      = JNum (8092405580431359 / 140737488355328)"
    by (simp add: double_defs)
  moreover have "math_round (JNum (8092405580431359 / 140737488355328)) = JNum 57"
    by simp
  moreover have r: "to_double (57 / 100) = JNum (5134103575202365 / 9007199254740992)"
    by (simp add: double_defs)
  moreover have "to_double (58 / 100) \<noteq> JNum (5134103575202365 / 9007199254740992)"
    by (simp add: double_defs)
  ultimately show ?thesis
    by (simp add: averager_object map_of_put_prop map_of_tabulate metrics_def spec_mean_def
        spec_scores_def)
qed

text \<open>
  Claim C1: for the runs whose scores are \<open>{performance: 80}\<close>, \<open>{performance: 90}\<close>
  and \<open>{performance: 100}\<close>, the averager returns a result whose performance score is
  90.00 and whose \<open>runs\<close> count is 3. Each listed object is the \<open>scores\<close> of its run.
\<close>

theorem average_of_80_90_100:
  "calculateAverageLighthouseScores
     (Some [JObj [(''scores'', JObj [(''performance'', JNum 80)])],
            JObj [(''scores'', JObj [(''performance'', JNum 90)])],
            JObj [(''scores'', JObj [(''performance'', JNum 100)])]])
   = JObj [(''scores'', JObj [(''performance'', JNum 90), (''accessibility'', JNum 0),
                              (''bestPractices'', JNum 0), (''seo'', JNum 0),
                              (''pwa'', JNum 0)]),
           (''runs'', JNum 3)]"
  by (simp add: calculateAverageLighthouseScores_def add_run_scores_def init_totals_def
      metrics_def average_scores_def)

text \<open>
  Claim C5: for every non-empty run list and every tracked metric, the averaged score
  is the sum of the scores that the runs have for the metric, divided by the length of
  the list and rounded to two decimals, every operation being the one on doubles. A
  run missing the metric adds nothing to the sum and still counts in the divisor: with
  such a run appended, the sum is that of the other runs and the divisor is one more.
  In particular averaging the scores \<open>{performance: 90}\<close> and \<open>{}\<close> yields
  performance 45.00.
\<close>

theorem missing_metric_counts_as_zero:
  assumes "runs \<noteq> []" and "metric \<in> set metrics"
  shows "read_prop (read_prop (calculateAverageLighthouseScores (Some runs)) ''scores'') metric
         = js_div (math_round
                     (js_mul (js_div (foldl js_add (JNum 0)
                                        (filter is_number
                                           (map (\<lambda>run. read_prop (read_prop run ''scores'') metric)
                                                runs)))
                                     (of_nat (length runs)))
                             100))
                  100
       \<and> (\<not> is_number (read_prop (read_prop run ''scores'') metric) \<longrightarrow>
            read_prop (read_prop (calculateAverageLighthouseScores (Some (runs @ [run])))
                        ''scores'') metric
            = js_div (math_round
                        (js_mul (js_div (foldl js_add (JNum 0)
                                           (filter is_number
                                              (map (\<lambda>run. read_prop (read_prop run ''scores'') metric)
                                                   runs)))
                                        (of_nat (length runs + 1)))
                                100))
                     100)"
proof -
  have score: "read_prop (read_prop (calculateAverageLighthouseScores (Some rs)) ''scores'') metric
      = spec_mean rs metric" if "rs \<noteq> []" for rs
  proof -
    have "read_prop (calculateAverageLighthouseScores (Some rs)) ''scores''
          = JObj (map (\<lambda>metric. (metric, spec_mean rs metric)) metrics)"
      using that by (simp add: averager_object map_of_put_prop)
    then show ?thesis
      using assms(2) by (simp add: map_of_tabulate)
  qed
  have "runs @ [run] \<noteq> []" by simp
  from score [OF assms(1)] score [OF this] show ?thesis
    by (simp add: spec_mean_def spec_scores_def)
qed

theorem missing_metric_counts_as_zero_witness:
  "[JObj [(''scores'', JObj [(''performance'', JNum 90)])]] \<noteq> []
 \<and> ''performance'' \<in> set metrics
 \<and> \<not> is_number (read_prop (read_prop (JObj []) ''scores'') ''performance'')
 \<and> \<not> is_number (read_prop (read_prop (JObj [(''scores'', JObj [])]) ''scores'') ''performance'')
 \<and> read_prop (read_prop (calculateAverageLighthouseScores
       (Some [JObj [(''scores'', JObj [(''performance'', JNum 90)])]]))
       ''scores'') ''performance'' = JNum 90
 \<and> read_prop (read_prop (calculateAverageLighthouseScores
       (Some ([JObj [(''scores'', JObj [(''performance'', JNum 90)])]] @ [JObj []])))
       ''scores'') ''performance'' = JNum 45
 \<and> read_prop (read_prop (calculateAverageLighthouseScores
       (Some ([JObj [(''scores'', JObj [(''performance'', JNum 90)])]]
              @ [JObj [(''scores'', JObj [])]])))
       ''scores'') ''performance'' = JNum 45"
  using missing_metric_counts_as_zero
      [of "[JObj [(''scores'', JObj [(''performance'', JNum 90)])]]" "''performance''" "JObj []"]
    missing_metric_counts_as_zero
      [of "[JObj [(''scores'', JObj [(''performance'', JNum 90)])]]" "''performance''"
          "JObj [(''scores'', JObj [])]"]
  by (simp add: metrics_def)

text \<open>
  Claim C8: for every non-empty run list the returned object carries a \<open>runs\<close> count
  equal to the length of the list, the averaged scores under \<open>scores\<close>, and under every
  other name what the last run of the list has under that name; the average of the
  empty list is \<open>null\<close>. The averaged scores are the means of the specification,
  computed on doubles.
\<close>

theorem averaged_result_fields:
  "(runs \<noteq> [] \<longrightarrow>
      own_property (calculateAverageLighthouseScores (Some runs)) ''runs''
        = Some (JNum (of_nat (length runs)))
    \<and> own_property (calculateAverageLighthouseScores (Some runs)) ''scores''
        = Some (JObj (map (\<lambda>metric. (metric, spec_mean runs metric)) metrics))
    \<and> (name \<noteq> ''scores'' \<and> name \<noteq> ''runs'' \<longrightarrow>
          own_property (calculateAverageLighthouseScores (Some runs)) name
          = map_of (spread (last runs)) name))
 \<and> calculateAverageLighthouseScores (Some []) = JNull
 \<and> calculateAverageLighthouseScores None = JNull"
proof (intro conjI impI)
  show "calculateAverageLighthouseScores (Some []) = JNull"
    and "calculateAverageLighthouseScores None = JNull"
    by (simp_all add: calculateAverageLighthouseScores_def)
qed (simp_all add: averager_object own_property_def map_of_put_prop)

theorem averaged_result_fields_witness:
  "[JObj [(''scores'', JObj [(''performance'', JNum 80)]), (''reportPaths'', JStr ''first.html'')],
    JObj [(''scores'', JObj [(''performance'', JNum 100)]), (''reportPaths'', JStr ''last.html'')]]
     \<noteq> []
 \<and> ''reportPaths'' \<noteq> ''scores'' \<and> ''reportPaths'' \<noteq> ''runs''
 \<and> own_property (calculateAverageLighthouseScores (Some
       [JObj [(''scores'', JObj [(''performance'', JNum 80)]), (''reportPaths'', JStr ''first.html'')],
        JObj [(''scores'', JObj [(''performance'', JNum 100)]), (''reportPaths'', JStr ''last.html'')]]))
       ''runs'' = Some (JNum 2)
 \<and> own_property (calculateAverageLighthouseScores (Some
       [JObj [(''scores'', JObj [(''performance'', JNum 80)]), (''reportPaths'', JStr ''first.html'')],
        JObj [(''scores'', JObj [(''performance'', JNum 100)]), (''reportPaths'', JStr ''last.html'')]]))
       ''scores''
     = Some (JObj [(''performance'', JNum 90), (''accessibility'', JNum 0),
                   (''bestPractices'', JNum 0), (''seo'', JNum 0), (''pwa'', JNum 0)])
 \<and> own_property (calculateAverageLighthouseScores (Some
       [JObj [(''scores'', JObj [(''performance'', JNum 80)]), (''reportPaths'', JStr ''first.html'')],
        JObj [(''scores'', JObj [(''performance'', JNum 100)]), (''reportPaths'', JStr ''last.html'')]]))
       ''reportPaths'' = Some (JStr ''last.html'')"
  using averaged_result_fields
      [of "[JObj [(''scores'', JObj [(''performance'', JNum 80)]), (''reportPaths'', JStr ''first.html'')],
            JObj [(''scores'', JObj [(''performance'', JNum 100)]), (''reportPaths'', JStr ''last.html'')]]"
          "''reportPaths''"]
  by (simp add: metrics_def spec_mean_def spec_scores_def)

text \<open>
  Claim C10: for every non-empty run list the \<open>scores\<close> of the returned object has
  exactly the five keys \<open>performance\<close>, \<open>accessibility\<close>, \<open>bestPractices\<close>, \<open>seo\<close>
  and \<open>pwa\<close>, each bound to a number, whatever keys the runs carry, such as the
  \<open>best-practices\<close> that the engine puts under \<open>metrics\<close>.
\<close>

theorem scores_have_the_five_keys:
  "runs \<noteq> [] \<Longrightarrow>
   (\<exists>ps. own_property (calculateAverageLighthouseScores (Some runs)) ''scores'' = Some (JObj ps)
     \<and> map fst ps = [''performance'', ''accessibility'', ''bestPractices'', ''seo'', ''pwa'']
     \<and> list_all is_number (map snd ps))"
  by (simp add: averager_scores metrics_def is_number_spec_mean)

theorem scores_have_the_five_keys_witness:
  "[JObj [(''metrics'', JObj [(''performance'', JNum 95), (''accessibility'', JNum 100),
                              (''best-practices'', JNum 92), (''seo'', JNum 90)]),
          (''thresholdBreached'', JBool False),
          (''reportPaths'', JObj [(''html'', JStr ''lighthouse-1.html''),
                                  (''json'', JStr ''lighthouse-1.json'')])]] \<noteq> []
 \<and> own_property (calculateAverageLighthouseScores (Some
       [JObj [(''metrics'', JObj [(''performance'', JNum 95), (''accessibility'', JNum 100),
                                  (''best-practices'', JNum 92), (''seo'', JNum 90)]),
              (''thresholdBreached'', JBool False),
              (''reportPaths'', JObj [(''html'', JStr ''lighthouse-1.html''),
                                      (''json'', JStr ''lighthouse-1.json'')])]]))
       ''scores''
     = Some (JObj [(''performance'', JNum 0), (''accessibility'', JNum 0),
                   (''bestPractices'', JNum 0), (''seo'', JNum 0), (''pwa'', JNum 0)])"
  using scores_have_the_five_keys
      [of "[JObj [(''metrics'', JObj [(''performance'', JNum 95), (''accessibility'', JNum 100),
                                      (''best-practices'', JNum 92), (''seo'', JNum 90)]),
                  (''thresholdBreached'', JBool False),
                  (''reportPaths'', JObj [(''html'', JStr ''lighthouse-1.html''),
                                          (''json'', JStr ''lighthouse-1.json'')])]]"]
  by (simp add: averager_scores metrics_def spec_mean_def spec_scores_def)

section \<open>Properties of the page-state classifier\<close>

lemma length_filter_eq_conv:
  "length (filter P xs) = length xs \<longleftrightarrow> (\<forall>x\<in>set xs. P x)"
proof (induction xs)
  case Nil
  then show ?case by simp
next
  case (Cons a xs)
  have le: "length (filter P xs) \<le> length xs" by simp
  show ?case
  proof (cases "P a")
    case True
    with Cons show ?thesis by simp
  next
    case False
    from le have "length (filter P xs) \<noteq> Suc (length xs)" by linarith
    with False show ?thesis by auto
  qed
qed

text \<open>What the two counts compared by the classifier say about the items.\<close>

lemma completed_count:
  fixes items :: "bool list"
  defines "completed \<equiv> filter (\<lambda>completed. completed) items"
  shows "length completed = length items \<longleftrightarrow> (\<forall>d\<in>set items. d)"
    and "0 < length completed \<longleftrightarrow> (\<exists>d\<in>set items. d)"
    and "length completed < length items \<longleftrightarrow> (\<exists>d\<in>set items. \<not> d)"
proof -
  show all: "length completed = length items \<longleftrightarrow> (\<forall>d\<in>set items. d)"
    unfolding completed_def using length_filter_eq_conv [of "\<lambda>c. c" items] .
  show "0 < length completed \<longleftrightarrow> (\<exists>d\<in>set items. d)"
    unfolding completed_def by (auto simp: filter_empty_conv)
  have "length completed \<le> length items"
    unfolding completed_def by simp
  then have "length completed < length items \<longleftrightarrow> length completed \<noteq> length items"
    by linarith
  also have "\<dots> \<longleftrightarrow> (\<exists>d\<in>set items. \<not> d)"
    using all by blast
  finally show "length completed < length items \<longleftrightarrow> (\<exists>d\<in>set items. \<not> d)" .
qed

lemma states_empty_iff: "states_empty pg \<longleftrightarrow> todo_list pg = []"
  by (simp add: states_empty_def)

lemma states_completed_iff:
  "states_completed pg \<longleftrightarrow> (\<exists>d\<in>set (todo_list pg). d) \<and> (\<forall>d\<in>set (todo_list pg). d)"
  by (simp only: states_completed_def Let_def query_all.simps completed_count)

lemma states_mixed_iff:
  "states_mixed pg \<longleftrightarrow> (\<exists>d\<in>set (todo_list pg). d) \<and> (\<exists>d\<in>set (todo_list pg). \<not> d)"
  by (simp only: states_mixed_def Let_def query_all.simps completed_count)

text \<open>
  Claim C6: the classifier returns \<open>empty\<close> when the item list is empty, \<open>completed\<close>
  when the list is non-empty and all of its items are done, \<open>mixed\<close> when some item is
  done and some item is not, and \<open>with-items\<close> otherwise, that is when the list is
  non-empty and no item is done.
\<close>

theorem page_state_classification:
  "(todo_list pg = [] \<longrightarrow> getPageState pg = ''empty'')
 \<and> (todo_list pg \<noteq> [] \<and> (\<forall>done\<in>set (todo_list pg). done)
       \<longrightarrow> getPageState pg = ''completed'')
 \<and> ((\<exists>done\<in>set (todo_list pg). done) \<and> (\<exists>done\<in>set (todo_list pg). \<not> done)
       \<longrightarrow> getPageState pg = ''mixed'')
 \<and> (todo_list pg \<noteq> [] \<and> (\<forall>done\<in>set (todo_list pg). \<not> done)
       \<longrightarrow> getPageState pg = ''with-items'')"
proof (intro conjI impI)
  assume "todo_list pg = []"
  then show "getPageState pg = ''empty''"
    by (simp add: getPageState_def states_empty_iff)
next
  assume a: "todo_list pg \<noteq> [] \<and> (\<forall>done\<in>set (todo_list pg). done)"
  then obtain d where "d \<in> set (todo_list pg)"
    by (cases "todo_list pg") auto
  with a have "states_completed pg" "\<not> states_empty pg"
    unfolding states_completed_iff states_empty_iff by blast+
  then show "getPageState pg = ''completed''"
    by (simp add: getPageState_def)
next
  assume a: "(\<exists>done\<in>set (todo_list pg). done) \<and> (\<exists>done\<in>set (todo_list pg). \<not> done)"
  then have "states_mixed pg" "\<not> states_completed pg" "todo_list pg \<noteq> []"
    unfolding states_mixed_iff states_completed_iff by fastforce+
  then show "getPageState pg = ''mixed''"
    by (simp add: getPageState_def states_empty_iff)
next
  assume a: "todo_list pg \<noteq> [] \<and> (\<forall>done\<in>set (todo_list pg). \<not> done)"
  then have "\<not> states_mixed pg" "\<not> states_completed pg"
    unfolding states_mixed_iff states_completed_iff by blast+
  with a show "getPageState pg = ''with-items''"
    by (simp add: getPageState_def states_empty_iff)
qed

theorem page_state_classification_witness:
  "getPageState \<lparr> page_url = ''/todo'', todo_list = [] \<rparr> = ''empty''
 \<and> getPageState \<lparr> page_url = ''/todo'', todo_list = [True, True] \<rparr> = ''completed''
 \<and> getPageState \<lparr> page_url = ''/todo'', todo_list = [True, False] \<rparr> = ''mixed''
 \<and> getPageState \<lparr> page_url = ''/todo'', todo_list = [False, False] \<rparr> = ''with-items''"
  using page_state_classification [of "\<lparr> page_url = ''/todo'', todo_list = [] \<rparr>"]
    page_state_classification [of "\<lparr> page_url = ''/todo'', todo_list = [True, True] \<rparr>"]
    page_state_classification [of "\<lparr> page_url = ''/todo'', todo_list = [True, False] \<rparr>"]
    page_state_classification [of "\<lparr> page_url = ''/todo'', todo_list = [False, False] \<rparr>"]
  by auto

section \<open>Properties of the orchestrator\<close>

lemmas orchestrator_defs =
  runCombinedAudit_def axe_audit_def lighthouse_audit_def default_config_def addResult_def
  hasEnoughLighthouseRuns_def REQUIRED_LIGHTHOUSE_RUNS_def getLighthouseRuns_def
  addLighthouseRun_def set_cache_def has_def get_def getCacheKey_def js_or_def
  getPageState_def states_empty_def AuditCache_new_def Let_def numeral_3_eq_3

lemma first_call_returns:
  "\<exists>result. runCombinedAudit steady_env demo_page demo_info JUndefined fresh
            = (Inr result, after_first_call)"
  unfolding after_first_call_def
  by (simp add: orchestrator_defs steady_env_def demo_page_def fresh_def)



lemma loop_frame:
  "lighthouse_loop en pg cfg url st n h = (r, h') \<Longrightarrow>
   testResults h' = testResults h \<and> axeInvocations h' = axeInvocations h
   \<and> cache (auditCache h') = cache (auditCache h)"
  by (induction n arbitrary: h)
     (auto simp: Let_def addLighthouseRun_def split: sum.splits)

lemma length_runs_add:
  "length (getLighthouseRuns (addLighthouseRun c url v st) url st)
   = Suc (length (getLighthouseRuns c url st))"
  by (simp add: getLighthouseRuns_def addLighthouseRun_def)

lemma loop_completes:
  "lighthouse_loop en pg cfg url st n h = (Inr u, h') \<Longrightarrow>
   lighthouseInvocations h' = lighthouseInvocations h + n
   \<and> length (getLighthouseRuns (auditCache h') url st)
     = length (getLighthouseRuns (auditCache h) url st) + n"
proof (induction n arbitrary: h)
  case 0
  then show ?case by simp
next
  case (Suc n)
  then show ?case
    by (auto simp: Let_def length_runs_add split: sum.splits dest!: Suc.IH)
qed

lemma loop_bounds:
  "lighthouse_loop en pg cfg url st n h = (r, h') \<Longrightarrow>
   lighthouseInvocations h \<le> lighthouseInvocations h'
   \<and> lighthouseInvocations h' \<le> lighthouseInvocations h + n"
proof (induction n arbitrary: h)
  case 0
  then show ?case by simp
next
  case (Suc n)
  then show ?case
    by (auto simp: Let_def split: sum.splits dest!: Suc.IH)
qed

lemma loop_failure:
  "lighthouse_loop en pg cfg url st n h = (r, h') \<Longrightarrow>
   lighthouseInvocations h \<le> i \<Longrightarrow> i < lighthouseInvocations h' \<Longrightarrow>
   runLighthouseAudit en i pg cfg = Inl e \<Longrightarrow> r = Inl e"
proof (induction n arbitrary: h)
  case 0
  then show ?case by simp
next
  case (Suc n)
  show ?case
  proof (cases "runLighthouseAudit en (lighthouseInvocations h) pg cfg")
    case (Inl e0)
    with Suc.prems show ?thesis
      by (auto simp: Let_def less_Suc_eq_le)
  next
    case (Inr res)
    with Suc.prems have "i \<noteq> lighthouseInvocations h" by auto
    with Suc.prems Inr show ?thesis
      by (auto simp: Let_def dest!: Suc.IH)
  qed
qed

lemma loop_no_failure:
  "(\<And>i. lighthouseInvocations h \<le> i \<Longrightarrow> i < lighthouseInvocations h + n \<Longrightarrow>
        \<exists>res. runLighthouseAudit en i pg cfg = Inr res) \<Longrightarrow>
   \<exists>h'. lighthouse_loop en pg cfg url st n h = (Inr (), h')"
proof (induction n arbitrary: h)
  case 0
  then show ?case by simp
next
  case (Suc n)
  from Suc.prems [of "lighthouseInvocations h"]
  obtain res where res: "runLighthouseAudit en (lighthouseInvocations h) pg cfg = Inr res"
    by auto
  let ?h = "h\<lparr> lighthouseInvocations := lighthouseInvocations h + 1,
               auditCache := addLighthouseRun (auditCache h) url res st \<rparr>"
  have "\<exists>h'. lighthouse_loop en pg cfg url st n ?h = (Inr (), h')"
    by (rule Suc.IH) (use Suc.prems in auto)
  with res show ?case
    by (simp add: Let_def)
qed

lemma axe_audit_frame:
  "axe_audit en pg cfg url st h = (r, h1) \<Longrightarrow>
   testResults h1 = testResults h \<and> lighthouseInvocations h1 = lighthouseInvocations h
   \<and> lighthouseRuns (auditCache h1) = lighthouseRuns (auditCache h)
   \<and> axeInvocations h \<le> axeInvocations h1"
  by (auto simp: axe_audit_def Let_def set_cache_def split: if_splits sum.splits)

lemma axe_audit_failure:
  "axe_audit en pg cfg url st h = (r, h1) \<Longrightarrow>
   axeInvocations h \<le> i \<Longrightarrow> i < axeInvocations h1 \<Longrightarrow>
   runAccessibilityAudit en i pg cfg = Inl e \<Longrightarrow> r = Inl e"
  by (auto simp: axe_audit_def Let_def less_Suc_eq_le split: if_splits sum.splits)

lemma lighthouse_audit_frame:
  "lighthouse_audit en pg cfg url st h = (r, h2) \<Longrightarrow>
   testResults h2 = testResults h \<and> axeInvocations h2 = axeInvocations h"
  by (auto simp: lighthouse_audit_def Let_def split: if_splits sum.splits prod.splits
      dest: loop_frame)

lemma lighthouse_audit_failure:
  "lighthouse_audit en pg cfg url st h = (r, h2) \<Longrightarrow>
   lighthouseInvocations h \<le> i \<Longrightarrow> i < lighthouseInvocations h2 \<Longrightarrow>
   runLighthouseAudit en i pg cfg = Inl e \<Longrightarrow> r = Inl e"
  by (auto simp: lighthouse_audit_def Let_def split: if_splits sum.splits prod.splits
      dest: loop_failure)

lemma lighthouse_audit_completes:
  assumes "ENABLE_LIGHTHOUSE en = Some ''true''"
    and "lighthouse_audit en pg cfg url st h = (Inr l, h2)"
  shows "lighthouseInvocations h2
         = lighthouseInvocations h + (3 - length (getLighthouseRuns (auditCache h) url st))"
    and "length (getLighthouseRuns (auditCache h2) url st)
         = max 3 (length (getLighthouseRuns (auditCache h) url st))"
  using assms
  by (auto simp: lighthouse_audit_def Let_def hasEnoughLighthouseRuns_def
      REQUIRED_LIGHTHOUSE_RUNS_def split: if_splits sum.splits prod.splits
      dest!: loop_completes)


lemma second_call_returns:
  "\<exists>result. runCombinedAudit steady_env demo_page demo_info JUndefined after_first_call
            = (Inr result, after_second_call)"
  unfolding after_second_call_def after_first_call_def
  by (simp add: orchestrator_defs steady_env_def demo_page_def fresh_def)

lemma failed_call_returns:
  "runCombinedAudit failing_env demo_page demo_info JUndefined fresh
   = (Inl (EngineError ''port 9222 is busy''), after_failed_call)"
  unfolding after_failed_call_def
  by (simp add: orchestrator_defs failing_env_def steady_env_def demo_page_def fresh_def)

lemma failed_call_counts:
  "lighthouseInvocations after_failed_call = 1 \<and> axeInvocations after_failed_call = 1"
  unfolding after_failed_call_def
  by (simp add: orchestrator_defs failing_env_def steady_env_def demo_page_def fresh_def)

lemma fresh_counts:
  "lighthouseInvocations fresh = 0 \<and> testResults fresh = []
 \<and> getLighthouseRuns (auditCache fresh) (page_url demo_page) (getPageState demo_page) = []"
  by (simp add: fresh_def getLighthouseRuns_def AuditCache_new_def)

text \<open>
  Claim C7: in every call of the orchestrator in which an invocation of an audit engine
  fails, the failure is what the call returns to its caller, and no result is appended
  to the result collection for that call. The invocations of a call are those numbered
  from the count before the call up to the count after it.
\<close>

theorem engine_failure_propagates:
  assumes "runCombinedAudit en pg ti config h = (r, h')"
    and "(\<exists>i. axeInvocations h \<le> i \<and> i < axeInvocations h'
              \<and> runAccessibilityAudit en i pg (default_config config) = Inl e)
       \<or> (\<exists>i. lighthouseInvocations h \<le> i \<and> i < lighthouseInvocations h'
              \<and> runLighthouseAudit en i pg (default_config config) = Inl e)"
  shows "r = Inl e \<and> testResults h' = testResults h"
proof -
  let ?cfg = "default_config config"
  let ?url = "page_url pg"
  let ?st = "getPageState pg"
  obtain ra h1 where axe: "axe_audit en pg ?cfg ?url ?st h = (ra, h1)"
    by (cases "axe_audit en pg ?cfg ?url ?st h")
  note f1 = axe_audit_frame [OF axe]
  show ?thesis
  proof (cases ra)
    case (Inl ea)
    with assms(1) axe have r: "r = Inl ea" and h': "h' = h1"
      by (simp_all add: runCombinedAudit_def Let_def)
    from assms(2) f1 h' obtain i where "axeInvocations h \<le> i" "i < axeInvocations h1"
      "runAccessibilityAudit en i pg ?cfg = Inl e"
      by auto
    from axe_audit_failure [OF axe this] f1 h' r Inl show ?thesis
      by simp
  next
    case (Inr a)
    obtain rl h2 where lh: "lighthouse_audit en pg ?cfg ?url ?st h1 = (rl, h2)"
      by (cases "lighthouse_audit en pg ?cfg ?url ?st h1")
    note f2 = lighthouse_audit_frame [OF lh]
    have no_axe: "\<not> (\<exists>i. axeInvocations h \<le> i \<and> i < axeInvocations h1
                      \<and> runAccessibilityAudit en i pg ?cfg = Inl e)"
      using axe_audit_failure [OF axe] Inr by auto
    show ?thesis
    proof (cases rl)
      case (Inl el)
      with assms(1) axe lh Inr have r: "r = Inl el" and h': "h' = h2"
        by (simp_all add: runCombinedAudit_def Let_def)
      from assms(2) no_axe f1 f2 h' obtain i where "lighthouseInvocations h1 \<le> i"
        "i < lighthouseInvocations h2" "runLighthouseAudit en i pg ?cfg = Inl e"
        by auto
      from lighthouse_audit_failure [OF lh this] f1 f2 h' r Inl show ?thesis
        by simp
    next
      case (Inr l)
      with assms(1) axe lh \<open>ra = Inr a\<close>
      have "lighthouseInvocations h' = lighthouseInvocations h2"
        and "axeInvocations h' = axeInvocations h2"
        by (auto simp: runCombinedAudit_def Let_def addResult_def)
      with assms(2) no_axe f1 f2 obtain i where "lighthouseInvocations h1 \<le> i"
        "i < lighthouseInvocations h2" "runLighthouseAudit en i pg ?cfg = Inl e"
        by auto
      from lighthouse_audit_failure [OF lh this] Inr show ?thesis
        by simp
    qed
  qed
qed

theorem engine_failure_propagates_witness:
  "runCombinedAudit failing_env demo_page demo_info JUndefined fresh
     = (Inl (EngineError ''port 9222 is busy''), after_failed_call)
 \<and> (\<exists>i. lighthouseInvocations fresh \<le> i \<and> i < lighthouseInvocations after_failed_call
        \<and> runLighthouseAudit failing_env i demo_page (default_config JUndefined)
            = Inl (EngineError ''port 9222 is busy''))
 \<and> testResults after_failed_call = testResults fresh"
proof -
  have "lighthouseInvocations fresh \<le> 0 \<and> 0 < lighthouseInvocations after_failed_call
        \<and> runLighthouseAudit failing_env 0 demo_page (default_config JUndefined)
            = Inl (EngineError ''port 9222 is busy'')"
    by (simp add: fresh_counts failed_call_counts failing_env_def)
  then have inv: "\<exists>i. lighthouseInvocations fresh \<le> i \<and> i < lighthouseInvocations after_failed_call
        \<and> runLighthouseAudit failing_env i demo_page (default_config JUndefined)
            = Inl (EngineError ''port 9222 is busy'')"
    by blast
  with engine_failure_propagates [OF failed_call_returns, of "EngineError ''port 9222 is busy''"]
    failed_call_returns
  show ?thesis by blast
qed

lemma lighthouse_audit_bound:
  "lighthouse_audit en pg cfg url st h = (r, h2) \<Longrightarrow>
   lighthouseInvocations h2
     \<le> lighthouseInvocations h + (3 - length (getLighthouseRuns (auditCache h) url st))"
  by (auto simp: lighthouse_audit_def Let_def REQUIRED_LIGHTHOUSE_RUNS_def
      split: if_splits sum.splits prod.splits dest!: loop_bounds)

lemma get_not_undefined: "get c url st \<noteq> JUndefined"
proof -
  have "js_or v JNull \<noteq> JUndefined" for v
    by (cases v) (simp_all add: js_or_def)
  then show ?thesis
    by (simp add: get_def Let_def)
qed

lemma get_prop_cached:
  "get c url st \<noteq> JNull \<Longrightarrow> \<exists>v. get_prop (get c url st) name = Inr v"
  using get_not_undefined [of c url st] by (cases "get c url st") simp_all

lemma axe_audit_returns:
  assumes "\<forall>i. \<exists>res. runAccessibilityAudit en i pg cfg = Inr res"
    and "has (auditCache h) url st \<longrightarrow> get (auditCache h) url st \<noteq> JNull"
  shows "\<exists>a h1. axe_audit en pg cfg url st h = (Inr a, h1)"
proof (cases "ENABLE_AXE en = Some ''true'' \<and> has (auditCache h) url st")
  case True
  with assms(2) get_prop_cached [of "auditCache h" url st "''axeResults''"] show ?thesis
    by (auto simp: axe_audit_def Let_def)
next
  case False
  from assms(1) obtain res where "runAccessibilityAudit en (axeInvocations h) pg cfg = Inr res"
    by blast
  with False show ?thesis
    by (auto simp: axe_audit_def Let_def)
qed

lemma lighthouse_audit_returns:
  assumes "\<forall>i. \<exists>res. runLighthouseAudit en i pg cfg = Inr res"
  shows "\<exists>l h2. lighthouse_audit en pg cfg url st h = (Inr l, h2)"
proof -
  obtain h2 where "lighthouse_loop en pg cfg url st
      (REQUIRED_LIGHTHOUSE_RUNS - length (getLighthouseRuns (auditCache h) url st)) h
      = (Inr (), h2)"
    using loop_no_failure [of h _ en pg cfg url st] assms by blast
  then show ?thesis
    by (simp add: lighthouse_audit_def Let_def)
qed

text \<open>A call returns a result when no engine fails and a cached entry is not falsy.\<close>

lemma runCombinedAudit_returns:
  assumes "\<forall>i. \<exists>res. runAccessibilityAudit en i pg (default_config config) = Inr res"
    and "\<forall>i. \<exists>res. runLighthouseAudit en i pg (default_config config) = Inr res"
    and "has (auditCache h) (page_url pg) (getPageState pg)
         \<longrightarrow> get (auditCache h) (page_url pg) (getPageState pg) \<noteq> JNull"
  shows "\<exists>result h'. runCombinedAudit en pg ti config h = (Inr result, h')"
proof -
  from axe_audit_returns [OF assms(1) assms(3)]
  obtain a h1 where "axe_audit en pg (default_config config) (page_url pg) (getPageState pg) h
                     = (Inr a, h1)"
    by blast
  moreover from lighthouse_audit_returns [OF assms(2)]
  obtain l h2 where "lighthouse_audit en pg (default_config config) (page_url pg)
                       (getPageState pg) h1 = (Inr l, h2)"
    by blast
  ultimately show ?thesis
    by (simp add: runCombinedAudit_def Let_def)
qed

text \<open>
  Claim C3, as stated: in every call of the orchestrator with the repeatable audit
  enabled and \<open>k\<close> runs cached for the key of the page, the performance engine is
  invoked exactly \<open>max(0, 3 - k)\<close> times. This fails for a call that a failure
  aborts: with no run cached and an engine that fails, the call makes one invocation,
  not three.
\<close>

theorem failing_engine_invoked_once:
  "ENABLE_LIGHTHOUSE failing_env = Some ''true''
 \<and> length (getLighthouseRuns (auditCache fresh) (page_url demo_page) (getPageState demo_page)) = 0
 \<and> runCombinedAudit failing_env demo_page demo_info JUndefined fresh
     = (Inl (EngineError ''port 9222 is busy''), after_failed_call)
 \<and> lighthouseInvocations fresh = 0
 \<and> lighthouseInvocations after_failed_call = 1
 \<and> int (lighthouseInvocations after_failed_call) - int (lighthouseInvocations fresh)
     \<noteq> max 0 (3 - int (length (getLighthouseRuns (auditCache fresh) (page_url demo_page)
                                   (getPageState demo_page))))"
  using failed_call_returns failed_call_counts fresh_counts
  by (simp add: failing_env_def steady_env_def)

text \<open>
  Claim C3, amended: in every call of the orchestrator with the repeatable audit enabled
  and \<open>k\<close> runs cached for the key of the page that returns a result, the performance
  engine is invoked exactly \<open>max(0, 3 - k)\<close> times, after which the key has
  \<open>max(3, k)\<close> runs; so a first call that returns invokes it 3 times and a second
  call for the same key 0 times. A call that a failure aborts invokes it at most
  \<open>max(0, 3 - k)\<close> times.
\<close>

theorem lighthouse_invocation_count:
  assumes "ENABLE_LIGHTHOUSE en = Some ''true''"
    and "runCombinedAudit en pg ti config h = (r, h')"
  shows "int (lighthouseInvocations h') - int (lighthouseInvocations h)
         \<le> max 0 (3 - int (length (getLighthouseRuns (auditCache h) (page_url pg) (getPageState pg))))
       \<and> (r = Inr result \<longrightarrow>
            int (lighthouseInvocations h') - int (lighthouseInvocations h)
            = max 0 (3 - int (length (getLighthouseRuns (auditCache h) (page_url pg)
                                        (getPageState pg))))
          \<and> length (getLighthouseRuns (auditCache h') (page_url pg) (getPageState pg))
            = max 3 (length (getLighthouseRuns (auditCache h) (page_url pg) (getPageState pg))))"
proof -
  let ?cfg = "default_config config"
  let ?url = "page_url pg"
  let ?st = "getPageState pg"
  obtain ra h1 where axe: "axe_audit en pg ?cfg ?url ?st h = (ra, h1)"
    by (cases "axe_audit en pg ?cfg ?url ?st h")
  obtain rl h2 where lh: "lighthouse_audit en pg ?cfg ?url ?st h1 = (rl, h2)"
    by (cases "lighthouse_audit en pg ?cfg ?url ?st h1")
  from axe_audit_frame [OF axe]
  have same: "getLighthouseRuns (auditCache h1) ?url ?st = getLighthouseRuns (auditCache h) ?url ?st"
    and inv: "lighthouseInvocations h1 = lighthouseInvocations h"
    by (simp_all add: getLighthouseRuns_def)
  have "lighthouseInvocations h' = lighthouseInvocations h
      \<or> lighthouseInvocations h' = lighthouseInvocations h2"
    using assms(2) axe lh inv
    by (auto simp: runCombinedAudit_def Let_def addResult_def split: sum.splits)
  with lighthouse_audit_bound [OF lh] same inv
  have bound: "int (lighthouseInvocations h') - int (lighthouseInvocations h)
         \<le> max 0 (3 - int (length (getLighthouseRuns (auditCache h) ?url ?st)))"
    by auto
  have exact: "int (lighthouseInvocations h') - int (lighthouseInvocations h)
            = max 0 (3 - int (length (getLighthouseRuns (auditCache h) ?url ?st)))
          \<and> length (getLighthouseRuns (auditCache h') ?url ?st)
            = max 3 (length (getLighthouseRuns (auditCache h) ?url ?st))"
    if "r = Inr result"
  proof -
    from assms(2) axe lh that obtain a l where ra: "ra = Inr a" and rl: "rl = Inr l"
      and h': "h' = addResult h2 result"
      by (auto simp: runCombinedAudit_def Let_def split: sum.splits)
    from lighthouse_audit_completes [OF assms(1) lh [unfolded rl]] same inv h'
    show ?thesis
      by (auto simp: addResult_def)
  qed
  from bound exact show ?thesis
    by blast
qed

theorem lighthouse_invocation_count_witness:
  "ENABLE_LIGHTHOUSE steady_env = Some ''true''
 \<and> (\<exists>result. runCombinedAudit steady_env demo_page demo_info JUndefined fresh
               = (Inr result, after_first_call))
 \<and> (\<exists>result. runCombinedAudit steady_env demo_page demo_info JUndefined after_first_call
               = (Inr result, after_second_call))
 \<and> lighthouseInvocations fresh = 0
 \<and> lighthouseInvocations after_first_call = 3
 \<and> lighthouseInvocations after_second_call = 3"
proof -
  have en: "ENABLE_LIGHTHOUSE steady_env = Some ''true''"
    by (simp add: steady_env_def)
  obtain r1 where c1: "runCombinedAudit steady_env demo_page demo_info JUndefined fresh
                       = (Inr r1, after_first_call)"
    using first_call_returns by blast
  obtain r2 where c2: "runCombinedAudit steady_env demo_page demo_info JUndefined after_first_call
                       = (Inr r2, after_second_call)"
    using second_call_returns by blast
  from lighthouse_invocation_count [OF en c1, of r1] fresh_counts
  have first: "lighthouseInvocations after_first_call = 3"
    and runs: "length (getLighthouseRuns (auditCache after_first_call) (page_url demo_page)
                 (getPageState demo_page)) = 3"
    by simp_all
  from lighthouse_invocation_count [OF en c2, of r2] first runs
  have "lighthouseInvocations after_second_call = 3"
    by simp
  with en c1 c2 first fresh_counts show ?thesis
    by blast
qed

end
